theory Spec2Isabelle
  imports Main "HOL-Library.List_Lexorder" "HOL-Library.Char_ord"
begin

section \<open>The package table of spyder-env-manager\<close>

text \<open>
  A shallow embedding of \<^verbatim>\<open>spyder_env_manager/spyder/widgets/packages_table.py\<close>:
  the table model \<^verbatim>\<open>EnvironmentPackagesModel\<close> and the view
  \<^verbatim>\<open>EnvironmentPackagesTable\<close> that owns it.
\<close>

subsection \<open>Package records and the object store\<close>

text \<open>
  A package is a Python dict with the keys \<^verbatim>\<open>name\<close>, \<^verbatim>\<open>description\<close>,
  \<^verbatim>\<open>version\<close> and \<^verbatim>\<open>requested\<close>; \<^verbatim>\<open>load_packages\<close> adds the key
  \<^verbatim>\<open>index\<close>, which is absent (\<open>None\<close>) until then.
\<close>

record package =
  name :: string
  description :: string
  version :: string
  requested :: bool
  index :: "int option"

text \<open>
  The dicts are mutable objects that several lists refer to at once, so they live in a
  store and the lists hold references. Every reference denotes an object, as in Python.
\<close>

type_synonym ref = nat
type_synonym store = "ref \<Rightarrow> package"

text \<open>\<^verbatim>\<open>package["index"] = idx\<close>: the object at \<open>r\<close> is updated in place.\<close>

definition set_index :: "store \<Rightarrow> ref \<Rightarrow> int \<Rightarrow> store" where
  "set_index h r idx = h(r := (h r)\<lparr>index := Some idx\<rparr>)"

subsection \<open>Python values\<close>

datatype error = IndexError

text \<open>\<^verbatim>\<open>xs[i]\<close> on a Python list: a negative \<open>i\<close> counts from the end.\<close>

definition py_index :: "'a list \<Rightarrow> int \<Rightarrow> error + 'a" where
  "py_index xs i =
     (if 0 \<le> i \<and> i < int (length xs) then Inr (xs ! nat i)
      else if i < 0 \<and> - int (length xs) \<le> i then Inr (xs ! nat (int (length xs) + i))
      else Inl IndexError)"

text \<open>Truth value of an optional list argument: \<^verbatim>\<open>None\<close> and \<^verbatim>\<open>[]\<close> are false.\<close>

definition truthy :: "'a list option \<Rightarrow> bool" where
  "truthy v = (case v of None \<Rightarrow> False | Some xs \<Rightarrow> xs \<noteq> [])"

subsection \<open>Constants\<close>

definition NAME :: int where "NAME = 0"
definition DESCRIPTION :: int where "DESCRIPTION = 1"
definition VERSION :: int where "VERSION = 2"

text \<open>\<^verbatim>\<open>EnvironmentPackagesActions\<close>, spelled as in the source.\<close>

definition UpdatePackage :: string where "UpdatePackage = ''update_package''"
definition UninstallPackage :: string where "UninstallPackage = ''unistall_package''"
definition InstallPackageVersion :: string where
  "InstallPackageVersion = ''install_package_version''"

datatype sort_order = AscendingOrder | DescendingOrder

datatype role = DisplayRole | TextAlignmentRole | FontRole | BackgroundColorRole
  | OtherRole int

text \<open>
  What \<^verbatim>\<open>to_qvariant\<close> wraps: nothing (\<open>Empty\<close>), a text, an integer, the small
  font of \<^verbatim>\<open>get_font(font_size_delta=DEFAULT_SMALL_DELTA)\<close>, or the colour
  \<^verbatim>\<open>SpyderPalette.COLOR_OCCURRENCE_4\<close>.
\<close>

datatype qvariant = Empty | Text string | Number int | SmallFont | OccurrenceColor

definition AlignCenter :: int where "AlignCenter = 132"

text \<open>
  A \<^verbatim>\<open>QModelIndex\<close>: it is valid when it belongs to a model and its row and
  column are not negative.
\<close>

record QModelIndex =
  mi_row :: int
  mi_column :: int
  mi_model :: bool

definition isValid :: "QModelIndex \<Rightarrow> bool" where
  "isValid ix = (0 \<le> mi_row ix \<and> 0 \<le> mi_column ix \<and> mi_model ix)"

subsection \<open>State of the view and its model\<close>

text \<open>
  \<open>all_packages\<close>, \<open>packages\<close> and \<open>packages_map\<close> are the attributes of the model;
  \<open>heap\<close> is the store of the package dicts they refer to. \<open>resets\<close> counts the
  model-reset signals. The other fields are the view's: the row of
  \<^verbatim>\<open>currentIndex()\<close> (\<open>-1\<close> when there is none), the header's sort indicator, the
  width last asked for each column through \<^verbatim>\<open>setColumnWidth\<close>, the stretch flag of
  the header, and the header's font metrics.
\<close>

record table =
  heap :: store
  all_packages :: "ref list"
  packages :: "ref list"
  packages_map :: "string \<rightharpoonup> ref"
  resets :: nat
  current_row :: int
  sort_indicator :: "(int \<times> sort_order) option"
  column_width :: "int \<rightharpoonup> int"
  stretch_last_section :: bool
  fm_width :: "string \<Rightarrow> int"

subsection \<open>The model\<close>

definition rowCount :: "table \<Rightarrow> int" where
  "rowCount t = int (length (packages t))"

definition columnCount :: "table \<Rightarrow> int" where
  "columnCount t = 3"

definition data :: "table \<Rightarrow> QModelIndex \<Rightarrow> role \<Rightarrow> error + qvariant" where
  "data t ix rl =
     (let row = mi_row ix in
      if \<not> isValid ix \<or> \<not> (0 \<le> row \<and> row < int (length (packages t))) then Inr Empty
      else
        case py_index (packages t) row of
          Inl e \<Rightarrow> Inl e
        | Inr p \<Rightarrow>
            let pkg = heap t p; col = mi_column ix in
            if rl = DisplayRole then
              (if col = NAME then Inr (Text (name pkg))
               else if col = DESCRIPTION then Inr (Text (description pkg))
               else if col = VERSION then Inr (Text (version pkg))
               else Inr Empty)
            else if rl = TextAlignmentRole then Inr (Number AlignCenter)
            else if rl = FontRole then Inr SmallFont
            else if rl = BackgroundColorRole then
              (if requested pkg then Inr OccurrenceColor else Inr Empty)
            else Inr Empty)"

text \<open>
  \<^verbatim>\<open>reset\<close> brackets nothing between \<^verbatim>\<open>beginResetModel\<close> and
  \<^verbatim>\<open>endResetModel\<close>: one reset signal, on which the view drops its current index.
\<close>

definition reset :: "table \<Rightarrow> table" where
  "reset t = t\<lparr>resets := Suc (resets t), current_row := - 1\<rparr>"

text \<open>
  The class defines no \<^verbatim>\<open>sort\<close> method, so a request to sort reaches the one it
  inherits from \<^verbatim>\<open>QAbstractTableModel\<close>, which does nothing.
\<close>

definition sort_model :: "int \<Rightarrow> sort_order \<Rightarrow> table \<Rightarrow> table" where
  "sort_model col ord t = t"

subsection \<open>The view\<close>

text \<open>
  \<^verbatim>\<open>setColumnWidth\<close> is recorded with the width as the code passes it; the header
  may still bound that width by its own section size limits, which are not part of the
  state.
\<close>

definition setColumnWidth :: "int \<Rightarrow> int \<Rightarrow> table \<Rightarrow> table" where
  "setColumnWidth col w t = t\<lparr>column_width := (column_width t)(col \<mapsto> w)\<rparr>"

definition adjust_cells :: "table \<Rightarrow> table" where
  "adjust_cells t =
     (let names = map (\<lambda>p. fm_width t (name (heap t p))) (packages t);
          t1 = (case names of [] \<Rightarrow> t | w # ws \<Rightarrow> setColumnWidth NAME (fold max ws w) t);
          descriptions = map (\<lambda>p. fm_width t (description (heap t p))) (packages t);
          t2 = (case descriptions of [] \<Rightarrow> t1
                | w # ws \<Rightarrow> setColumnWidth DESCRIPTION (fold max ws w) t1)
      in t2\<lparr>stretch_last_section := True\<rparr>)"

text \<open>
  \<^verbatim>\<open>QTableView.sortByColumn\<close> sets the header's sort indicator and asks the model
  to sort.
\<close>

definition sortByColumn :: "int \<Rightarrow> sort_order \<Rightarrow> table \<Rightarrow> table" where
  "sortByColumn col ord t = sort_model col ord (t\<lparr>sort_indicator := Some (col, ord)\<rparr>)"

text \<open>\<^verbatim>\<open>for idx, package in enumerate(packages): package["index"] = idx\<close>\<close>

fun assign_indices :: "store \<Rightarrow> nat \<Rightarrow> ref list \<Rightarrow> store" where
  "assign_indices h idx [] = h"
| "assign_indices h idx (r # rs) = assign_indices (set_index h r (int idx)) (Suc idx) rs"

text \<open>
  \<^verbatim>\<open>{package["name"]: package for package in packages}\<close>: entries are stored in
  list order, a later one replacing an earlier one with the same key.
\<close>

fun dict_by_name :: "store \<Rightarrow> (string \<rightharpoonup> ref) \<Rightarrow> ref list \<Rightarrow> (string \<rightharpoonup> ref)" where
  "dict_by_name h m [] = m"
| "dict_by_name h m (r # rs) = dict_by_name h (m(name (h r) \<mapsto> r)) rs"

text \<open>The body of the last \<^verbatim>\<open>if packages:\<close> of \<^verbatim>\<open>load_packages\<close>.\<close>

definition install_packages :: "bool \<Rightarrow> ref list \<Rightarrow> table \<Rightarrow> table" where
  "install_packages only_requested pkgs t =
     (let pkgs = (if only_requested then filter (\<lambda>p. requested (heap t p)) pkgs else pkgs);
          h = assign_indices (heap t) 0 pkgs;
          pmap = dict_by_name h Map.empty pkgs;
          t = t\<lparr>heap := h, packages := pkgs, packages_map := pmap\<rparr>;
          t = reset t;
          t = adjust_cells t
      in sortByColumn NAME AscendingOrder t)"

definition load_packages :: "bool \<Rightarrow> ref list option \<Rightarrow> table \<Rightarrow> table" where
  "load_packages only_requested pkgs t =
     (let t = (case pkgs of Some (p # ps) \<Rightarrow> t\<lparr>all_packages := p # ps\<rparr> | _ \<Rightarrow> t);
          pkgs = (if \<not> truthy pkgs \<and> all_packages t \<noteq> [] then Some (all_packages t)
                  else pkgs)
      in case pkgs of Some (p # ps) \<Rightarrow> install_packages only_requested (p # ps) t | _ \<Rightarrow> t)"

text \<open>
  The constructors: the model starts with empty lists and an empty lookup. The view
  enables sorting, which leaves the indicator of its new header on column 0, descending
  (the model is asked to sort and does nothing), and ends its set-up with
  \<^verbatim>\<open>self.load_packages(False)\<close>.
\<close>

definition new_table :: "store \<Rightarrow> (string \<Rightarrow> int) \<Rightarrow> table" where
  "new_table h fm =
     load_packages False None
       \<lparr>heap = h, all_packages = [], packages = [], packages_map = Map.empty, resets = 0,
        current_row = - 1, sort_indicator = Some (0, DescendingOrder),
        column_width = Map.empty,
        stretch_last_section = False, fm_width = fm\<rparr>"

text \<open>
  \<^verbatim>\<open>QTableView.selectRow\<close>: the row becomes the current one when the model has it.
\<close>

definition selectRow :: "int \<Rightarrow> table \<Rightarrow> table" where
  "selectRow r t = (if 0 \<le> r \<and> r < rowCount t then t\<lparr>current_row := r\<rparr> else t)"

definition next_row :: "table \<Rightarrow> table" where
  "next_row t =
     (let row = current_row t;
          rows = rowCount t;
          row = (if row + 1 = rows then - 1 else row)
      in selectRow (row + 1) t)"

definition previous_row :: "table \<Rightarrow> table" where
  "previous_row t =
     (let row = current_row t;
          rows = rowCount t;
          row = (if row = 0 then rows else row)
      in selectRow (row - 1) t)"

text \<open>
  A context menu: each entry is its label with the action name and the package that its
  trigger emits through \<^verbatim>\<open>sig_action_context_menu\<close>.
\<close>

type_synonym menu = "(string \<times> string \<times> ref) list"

text \<open>
  \<^verbatim>\<open>contextMenuEvent\<close>, given the row that \<^verbatim>\<open>rowAt\<close> found at the position of
  the event (\<open>-1\<close> when the position is on no row). The result is the menu popped up,
  if any; the event is accepted exactly when there is one.
\<close>

definition package_menu :: "ref \<Rightarrow> menu" where
  "package_menu p =
     [(''Update package'', UpdatePackage, p),
      (''Uninstall package'', UninstallPackage, p),
      (''Change package version with a constraint'', InstallPackageVersion, p)]"

definition contextMenuEvent :: "table \<Rightarrow> int \<Rightarrow> error + menu option" where
  "contextMenuEvent t row =
     (let pkgs = packages t in
      if pkgs = [] then Inr None
      else
        case py_index pkgs row of
          Inl e \<Rightarrow> Inl e
        | Inr p \<Rightarrow> if requested (heap t p) then Inr (Some (package_menu p)) else Inr None)"

subsection \<open>Vocabulary of the properties\<close>

text \<open>
  A call of \<^verbatim>\<open>load_packages\<close> installs a package list when it reaches the body of its
  last \<^verbatim>\<open>if packages:\<close>: a non-empty list was passed, or a full list is stored.
\<close>

definition installs :: "ref list option \<Rightarrow> table \<Rightarrow> bool" where
  "installs pkgs t = (truthy pkgs \<or> all_packages t \<noteq> [])"

subsection \<open>A concrete table\<close>

text \<open>A record as the backend supplies it: the four keys, no \<^verbatim>\<open>index\<close> yet.\<close>

definition backend_package :: "string \<Rightarrow> string \<Rightarrow> string \<Rightarrow> bool \<Rightarrow> package" where
  "backend_package n d v rq =
     \<lparr>name = n, description = d, version = v, requested = rq, index = None\<rparr>"

definition example_store :: store where
  "example_store =
     (\<lambda>_. backend_package [] [] [] False)
       (0 := backend_package ''six'' ''Python 2 and 3 compatibility'' ''1.1'' False,
        1 := backend_package ''numpy'' ''Array computing'' ''1.0'' True,
        2 := backend_package ''pip'' ''Package installer'' ''22.0'' True)"

definition example_fm :: "string \<Rightarrow> int" where
  "example_fm s = 7 * int (length s)"

definition example_table :: table where
  "example_table = new_table example_store example_fm"

section \<open>Properties\<close>

lemmas table_defs = load_packages_def install_packages_def new_table_def truthy_def
  reset_def adjust_cells_def sortByColumn_def sort_model_def setColumnWidth_def
  set_index_def rowCount_def example_table_def example_store_def example_fm_def
  backend_package_def NAME_def DESCRIPTION_def VERSION_def

subsection \<open>The three cases of \<^verbatim>\<open>load_packages\<close>\<close>

lemma load_packages_given:
  "pkgs \<noteq> [] \<Longrightarrow>
   load_packages f (Some pkgs) t = install_packages f pkgs (t\<lparr>all_packages := pkgs\<rparr>)"
  by (cases pkgs) (simp_all add: load_packages_def truthy_def)

lemma load_packages_reuse:
  "\<not> truthy pkgs \<Longrightarrow> all_packages t \<noteq> [] \<Longrightarrow>
   load_packages f pkgs t = install_packages f (all_packages t) t"
  by (cases "all_packages t")
     (auto simp: load_packages_def truthy_def split: option.splits list.splits)

lemma load_packages_nothing:
  "\<not> truthy pkgs \<Longrightarrow> all_packages t = [] \<Longrightarrow> load_packages f pkgs t = t"
  by (auto simp: load_packages_def truthy_def split: option.splits list.splits)

lemma packages_install:
  "packages (install_packages f pkgs t) = (if f then filter (\<lambda>p. requested (heap t p)) pkgs else pkgs)"
  by (simp add: install_packages_def reset_def adjust_cells_def sortByColumn_def sort_model_def
      setColumnWidth_def Let_def split: list.splits)

lemma heap_install:
  "heap (install_packages f pkgs t) =
     assign_indices (heap t) 0 (if f then filter (\<lambda>p. requested (heap t p)) pkgs else pkgs)"
  by (simp add: install_packages_def reset_def adjust_cells_def sortByColumn_def sort_model_def
      setColumnWidth_def Let_def split: list.splits)

lemma packages_map_install:
  "packages_map (install_packages f pkgs t) =
     dict_by_name (heap (install_packages f pkgs t)) Map.empty (packages (install_packages f pkgs t))"
  by (simp add: install_packages_def reset_def adjust_cells_def sortByColumn_def sort_model_def
      setColumnWidth_def Let_def split: list.splits)

lemma all_packages_install:
  "all_packages (install_packages f pkgs t) = all_packages t"
  by (simp add: install_packages_def reset_def adjust_cells_def sortByColumn_def sort_model_def
      setColumnWidth_def Let_def split: list.splits)

lemma resets_install:
  "resets (install_packages f pkgs t) = Suc (resets t)"
  by (simp add: install_packages_def reset_def adjust_cells_def sortByColumn_def sort_model_def
      setColumnWidth_def Let_def split: list.splits)

lemma assign_indices_other: "r \<notin> set rs \<Longrightarrow> assign_indices h i rs r = h r"
  by (induction rs arbitrary: h i) (auto simp: set_index_def)

lemma assign_indices_frame_ex:
  "\<exists>v. assign_indices h i rs r = (h r)\<lparr>index := v\<rparr>"
proof (induction rs arbitrary: h i)
  case Nil
  show ?case by (rule exI [of _ "index (h r)"]) simp
next
  case (Cons a rs)
  obtain v where v: "assign_indices (set_index h a (int i)) (Suc i) rs r =
        (set_index h a (int i) r)\<lparr>index := v\<rparr>"
    using Cons.IH by blast
  show ?case
  proof (cases "r = a")
    case True
    with v have "assign_indices h i (a # rs) r = (h r)\<lparr>index := v\<rparr>"
      by (simp add: set_index_def)
    then show ?thesis by (rule exI)
  next
    case False
    with v have "assign_indices h i (a # rs) r = (h r)\<lparr>index := v\<rparr>"
      by (simp add: set_index_def)
    then show ?thesis by (rule exI)
  qed
qed

lemma assign_indices_frame:
  "assign_indices h i rs r = (h r)\<lparr>index := index (assign_indices h i rs r)\<rparr>"
proof -
  obtain v where v: "assign_indices h i rs r = (h r)\<lparr>index := v\<rparr>"
    using assign_indices_frame_ex by blast
  then have "index (assign_indices h i rs r) = v" by simp
  with v show ?thesis by simp
qed

lemma assign_indices_last:
  "k < length rs \<Longrightarrow> \<forall>j. k < j \<and> j < length rs \<longrightarrow> rs ! j \<noteq> rs ! k \<Longrightarrow>
   index (assign_indices h i rs (rs ! k)) = Some (int (i + k))"
proof (induction rs arbitrary: h i k)
  case Nil
  then show ?case by simp
next
  case (Cons a rs)
  show ?case
  proof (cases k)
    case 0
    have "a \<notin> set rs"
    proof
      assume "a \<in> set rs"
      then obtain j where "j < length rs" "rs ! j = a" by (auto simp: in_set_conv_nth)
      with Cons.prems(2) 0 show False by (auto dest: spec [of _ "Suc j"])
    qed
    then show ?thesis using 0 by (simp add: assign_indices_other set_index_def)
  next
    case (Suc k')
    have "k' < length rs" using Cons.prems(1) Suc by simp
    moreover have "\<forall>j. k' < j \<and> j < length rs \<longrightarrow> rs ! j \<noteq> rs ! k'"
      using Cons.prems(2) Suc by (auto dest: spec [of _ "Suc j" for j])
    ultimately have "index (assign_indices (set_index h a (int i)) (Suc i) rs (rs ! k')) = Some (int (Suc i + k'))"
      by (rule Cons.IH)
    then show ?thesis using Suc by simp
  qed
qed

lemma dom_dict_by_name:
  "dom (dict_by_name h m rs) = dom m \<union> (\<lambda>r. name (h r)) ` set rs"
  by (induction rs arbitrary: m) auto

lemma dict_by_name_Some:
  "dict_by_name h m rs k = Some r \<Longrightarrow> m k = Some r \<or> (r \<in> set rs \<and> name (h r) = k)"
proof (induction rs arbitrary: m)
  case Nil
  then show ?case by simp
next
  case (Cons a rs)
  from Cons.prems have "dict_by_name h (m(name (h a) \<mapsto> a)) rs k = Some r" by simp
  then have "(m(name (h a) \<mapsto> a)) k = Some r \<or> (r \<in> set rs \<and> name (h r) = k)"
    by (rule Cons.IH)
  then show ?case by (auto split: if_splits)
qed

lemma dict_by_name_keep:
  "\<forall>r \<in> set rs. name (h r) \<noteq> k \<Longrightarrow> dict_by_name h m rs k = m k"
  by (induction rs arbitrary: m) auto

lemma dict_by_name_inj:
  "inj_on (\<lambda>r. name (h r)) (set rs) \<Longrightarrow> r \<in> set rs \<Longrightarrow>
   dict_by_name h m rs (name (h r)) = Some r"
proof (induction rs arbitrary: m)
  case Nil
  then show ?case by simp
next
  case (Cons a rs)
  have inj: "inj_on (\<lambda>r. name (h r)) (set rs)"
    using Cons.prems(1) by (simp add: inj_on_def)
  show ?case
  proof (cases "r \<in> set rs")
    case True
    with inj show ?thesis by (simp add: Cons.IH)
  next
    case False
    with Cons.prems(2) have ra: "r = a" by simp
    have "\<forall>x \<in> set rs. name (h x) \<noteq> name (h a)"
      using Cons.prems(1) False ra by (auto simp: inj_on_def)
    then show ?thesis using ra by (simp add: dict_by_name_keep)
  qed
qed


lemma load_packages_noop: "\<not> installs pkgs t \<Longrightarrow> load_packages f pkgs t = t"
  by (simp add: installs_def load_packages_nothing)

lemma all_packages_load:
  "all_packages (load_packages f pkgs t) =
     (case pkgs of Some (p # ps) \<Rightarrow> p # ps | _ \<Rightarrow> all_packages t)"
proof (cases "truthy pkgs")
  case True
  then obtain xs where "pkgs = Some xs" "xs \<noteq> []"
    by (auto simp: truthy_def split: option.splits)
  then show ?thesis
    by (cases xs) (simp_all add: load_packages_given all_packages_install)
next
  case False
  then have "(case pkgs of Some (p # ps) \<Rightarrow> p # ps | _ \<Rightarrow> all_packages t) = all_packages t"
    by (auto simp: truthy_def split: option.splits list.splits)
  moreover have "all_packages (load_packages f pkgs t) = all_packages t"
    using False
    by (cases "all_packages t = []")
       (simp_all add: load_packages_nothing load_packages_reuse all_packages_install)
  ultimately show ?thesis by simp
qed

lemma load_packages_install:
  "installs pkgs t \<Longrightarrow>
   load_packages f pkgs t =
     install_packages f (all_packages (load_packages f pkgs t))
       (t\<lparr>all_packages := all_packages (load_packages f pkgs t)\<rparr>)"
proof (cases "truthy pkgs")
  case True
  then obtain xs where "pkgs = Some xs" "xs \<noteq> []"
    by (auto simp: truthy_def split: option.splits)
  then show ?thesis
    by (cases xs) (simp_all add: load_packages_given all_packages_install)
next
  case False
  assume "installs pkgs t"
  with False have ne: "all_packages t \<noteq> []" by (simp add: installs_def)
  with False show ?thesis
    by (simp add: load_packages_reuse all_packages_install)
qed

lemma packages_load:
  "installs pkgs t \<Longrightarrow>
   packages (load_packages f pkgs t) =
     (if f then filter (\<lambda>p. requested (heap t p)) (all_packages (load_packages f pkgs t))
      else all_packages (load_packages f pkgs t))"
  by (subst load_packages_install) (simp_all add: packages_install)

lemma heap_load:
  "installs pkgs t \<Longrightarrow>
   heap (load_packages f pkgs t) = assign_indices (heap t) 0 (packages (load_packages f pkgs t))"
  by (subst load_packages_install, assumption, subst (2) load_packages_install, assumption)
     (simp add: heap_install packages_install)

lemma packages_map_load:
  "installs pkgs t \<Longrightarrow>
   packages_map (load_packages f pkgs t) =
     dict_by_name (heap (load_packages f pkgs t)) Map.empty (packages (load_packages f pkgs t))"
  by (subst load_packages_install, assumption, subst (2) load_packages_install, assumption,
      subst (3) load_packages_install, assumption) (rule packages_map_install)

lemma resets_load:
  "installs pkgs t \<Longrightarrow> resets (load_packages f pkgs t) = Suc (resets t)"
  by (subst load_packages_install) (simp_all add: resets_install)


lemma requested_load:
  "requested (heap (load_packages f pkgs t) p) = requested (heap t p)"
proof (cases "installs pkgs t")
  case True
  have "assign_indices (heap t) 0 (packages (load_packages f pkgs t)) p =
      (heap t p)\<lparr>index := index (assign_indices (heap t) 0 (packages (load_packages f pkgs t)) p)\<rparr>"
    by (rule assign_indices_frame)
  then have "requested (assign_indices (heap t) 0 (packages (load_packages f pkgs t)) p) =
      requested (heap t p)"
    by (metis package.select_convs(4) package.surjective package.update_convs(5))
  then show ?thesis by (simp add: heap_load [OF True])
next
  case False
  then show ?thesis by (simp add: load_packages_noop)
qed

subsection \<open>The context menu\<close>

lemma contextMenuEvent_on_row:
  "0 \<le> row \<Longrightarrow> row < rowCount t \<Longrightarrow>
   contextMenuEvent t row =
     Inr (if requested (heap t (packages t ! nat row))
          then Some (package_menu (packages t ! nat row)) else None)"
  by (auto simp: contextMenuEvent_def py_index_def rowCount_def Let_def)

lemma contextMenuEvent_off_rows:
  "packages t \<noteq> [] \<Longrightarrow>
   contextMenuEvent t (- 1) =
     Inr (if requested (heap t (last (packages t)))
          then Some (package_menu (last (packages t))) else None)"
proof -
  assume ne: "packages t \<noteq> []"
  then have "nat (int (length (packages t)) + - 1) = length (packages t) - 1"
    and "Suc 0 \<le> length (packages t)"
    by (cases "packages t", simp_all)+
  with ne show ?thesis
    by (simp add: contextMenuEvent_def py_index_def Let_def last_conv_nth)
qed

section \<open>The claims\<close>

text \<open>
  C1. The claim: after a call of \<^verbatim>\<open>load_packages\<close> that installs a list, the
  sequence \<open>packages\<close> held by the model is sorted ascending by name. The code asks
  for it (\<^verbatim>\<open>sortByColumn(NAME, Qt.AscendingOrder)\<close>), but the model has no
  \<^verbatim>\<open>sort\<close> of its own and nothing reorders \<open>packages\<close>: loading six before numpy
  leaves six before numpy, which is not ascending.
\<close>

theorem load_packages_keeps_given_order:
  "map (\<lambda>p. name (heap (load_packages False (Some [0, 1]) example_table) p))
       (packages (load_packages False (Some [0, 1]) example_table)) = [''six'', ''numpy''] \<and>
   \<not> sorted (map (\<lambda>p. name (heap (load_packages False (Some [0, 1]) example_table) p))
                 (packages (load_packages False (Some [0, 1]) example_table)))"
  by (simp add: table_defs Let_def)

text \<open>
  C2. The claim: a right-click shows the context menu if and only if it hits a displayed
  row whose package is requested, so never when it hits no row. The code indexes
  \<open>packages\<close> with the \<open>-1\<close> that \<^verbatim>\<open>rowAt\<close> returns off the rows, which in Python
  is the last element: with six and numpy loaded (two rows, numpy requested and last), a
  click on no row pops up the menu of numpy.
\<close>

theorem contextMenuEvent_menu_off_rows:
  "rowCount (load_packages False (Some [0, 1]) example_table) = 2 \<and>
   contextMenuEvent (load_packages False (Some [0, 1]) example_table) (- 1) =
     Inr (Some (package_menu 1))"
  by (simp add: table_defs Let_def contextMenuEvent_def py_index_def)

text \<open>
  C3, as stated: for every list \<open>ps\<close>, after
  \<^verbatim>\<open>load_packages(only_requested=True, packages=ps)\<close> the displayed collection is the
  subsequence of the requested elements of \<open>ps\<close>. It fails for the empty list once a
  full list is stored: the stored list is displayed (filtered), not the empty one.
\<close>

theorem load_packages_empty_list_counterexample:
  "packages (load_packages True (Some [])
              (load_packages False (Some [0, 1]) example_table)) = [1] \<and>
   packages (load_packages True (Some [])
              (load_packages False (Some [0, 1]) example_table)) \<noteq>
   filter (\<lambda>p. requested (heap (load_packages False (Some [0, 1]) example_table) p)) []"
  by (simp add: table_defs Let_def)

text \<open>
  C3, amended: for every non-empty \<open>ps\<close> the displayed collection is exactly the
  subsequence of the elements of \<open>ps\<close> with \<open>requested\<close> true, in the order of \<open>ps\<close>
  (before any re-sort);
  an empty \<open>ps\<close> counts as no list, so the requested subsequence of the stored full list
  is displayed when there is one, and the displayed collection is unchanged otherwise.
  The load changes no \<open>requested\<close> flag.
\<close>

theorem load_packages_only_requested:
  "packages (load_packages True (Some pkgs) t) =
     (if pkgs \<noteq> [] then filter (\<lambda>p. requested (heap t p)) pkgs
      else if all_packages t \<noteq> [] then filter (\<lambda>p. requested (heap t p)) (all_packages t)
      else packages t) \<and>
   (\<forall>p. requested (heap (load_packages True (Some pkgs) t) p) = requested (heap t p))"
proof
  show "packages (load_packages True (Some pkgs) t) =
     (if pkgs \<noteq> [] then filter (\<lambda>p. requested (heap t p)) pkgs
      else if all_packages t \<noteq> [] then filter (\<lambda>p. requested (heap t p)) (all_packages t)
      else packages t)"
  proof (cases "installs (Some pkgs) t")
    case True
    then show ?thesis
      by (cases pkgs) (auto simp: packages_load all_packages_load installs_def truthy_def)
  next
    case False
    then show ?thesis
      by (simp add: load_packages_noop) (simp add: installs_def truthy_def)
  qed
  show "\<forall>p. requested (heap (load_packages True (Some pkgs) t) p) = requested (heap t p)"
    by (simp add: requested_load)
qed

theorem load_packages_only_requested_witness:
  "packages (load_packages True (Some [0, 1, 2]) example_table) = [1, 2] \<and>
   packages (load_packages True (Some [])
              (load_packages False (Some [0, 1, 2]) example_table)) = [1, 2]"
  using load_packages_only_requested [of "[0, 1, 2]" example_table]
    load_packages_only_requested [of "[]" "load_packages False (Some [0, 1, 2]) example_table"]
  by (simp add: table_defs)

text \<open>
  C4. For a valid index whose row is in \<open>[0, rowCount)\<close>, \<^verbatim>\<open>data\<close> with the display
  role returns the name of \<open>packages[row]\<close> in column 0, its description in column 1 and
  its version in column 2.
\<close>

theorem data_display:
  assumes "isValid ix" and "0 \<le> mi_row ix" and "mi_row ix < rowCount t"
  shows "(mi_column ix = NAME \<longrightarrow>
            data t ix DisplayRole = Inr (Text (name (heap t (packages t ! nat (mi_row ix)))))) \<and>
         (mi_column ix = DESCRIPTION \<longrightarrow>
            data t ix DisplayRole =
              Inr (Text (description (heap t (packages t ! nat (mi_row ix)))))) \<and>
         (mi_column ix = VERSION \<longrightarrow>
            data t ix DisplayRole = Inr (Text (version (heap t (packages t ! nat (mi_row ix))))))"
  using assms
  by (simp add: data_def py_index_def rowCount_def NAME_def DESCRIPTION_def VERSION_def)

theorem data_display_witness:
  "isValid \<lparr>mi_row = 1, mi_column = 2, mi_model = True\<rparr> \<and>
   rowCount (load_packages False (Some [0, 1]) example_table) = 2 \<and>
   data (load_packages False (Some [0, 1]) example_table)
     \<lparr>mi_row = 1, mi_column = 0, mi_model = True\<rparr> DisplayRole = Inr (Text ''numpy'') \<and>
   data (load_packages False (Some [0, 1]) example_table)
     \<lparr>mi_row = 1, mi_column = 1, mi_model = True\<rparr> DisplayRole = Inr (Text ''Array computing'') \<and>
   data (load_packages False (Some [0, 1]) example_table)
     \<lparr>mi_row = 1, mi_column = 2, mi_model = True\<rparr> DisplayRole = Inr (Text ''1.0'')"
  using data_display [of "\<lparr>mi_row = 1, mi_column = 0, mi_model = True\<rparr>"
          "load_packages False (Some [0, 1]) example_table"]
        data_display [of "\<lparr>mi_row = 1, mi_column = 1, mi_model = True\<rparr>"
          "load_packages False (Some [0, 1]) example_table"]
        data_display [of "\<lparr>mi_row = 1, mi_column = 2, mi_model = True\<rparr>"
          "load_packages False (Some [0, 1]) example_table"]
  by (simp add: table_defs isValid_def)

text \<open>
  C5. For every flag, \<^verbatim>\<open>load_packages\<close> without a list, when a full list is stored,
  yields the same state (displayed packages, lookup and all the rest) as
  \<^verbatim>\<open>load_packages\<close> with that stored list passed.
\<close>

theorem load_packages_reuses_stored_list:
  "all_packages t \<noteq> [] \<Longrightarrow>
   load_packages f None t = load_packages f (Some (all_packages t)) t"
proof -
  assume ne: "all_packages t \<noteq> []"
  have "t\<lparr>all_packages := all_packages t\<rparr> = t" by simp
  with ne show ?thesis
    by (simp add: load_packages_given load_packages_reuse truthy_def)
qed

theorem load_packages_reuses_stored_list_witness:
  "all_packages (load_packages False (Some [0, 1, 2]) example_table) = [0, 1, 2] \<and>
   load_packages True None (load_packages False (Some [0, 1, 2]) example_table) =
   load_packages True (Some [0, 1, 2]) (load_packages False (Some [0, 1, 2]) example_table)"
proof -
  have a: "all_packages (load_packages False (Some [0, 1, 2]) example_table) = [0, 1, 2]"
    by (simp add: all_packages_load)
  then have "all_packages (load_packages False (Some [0, 1, 2]) example_table) \<noteq> []"
    by simp
  from load_packages_reuses_stored_list [OF this, of True] a show ?thesis by simp
qed

text \<open>
  C6. After a load that installs a list, the keys of \<open>packages_map\<close> are exactly the
  names of the displayed packages, and every entry maps the name of a displayed package
  to that very package. When the displayed packages have different names, each of them
  is the value stored under its own name, the values of the lookup are exactly the
  displayed packages, and the names are a one-to-one correspondence between the
  displayed packages and the keys.
\<close>

theorem packages_map_reflects_packages:
  assumes "installs pkgs t"
  shows "dom (packages_map (load_packages f pkgs t)) =
           (\<lambda>p. name (heap (load_packages f pkgs t) p)) ` set (packages (load_packages f pkgs t)) \<and>
         (\<forall>k p. packages_map (load_packages f pkgs t) k = Some p \<longrightarrow>
            p \<in> set (packages (load_packages f pkgs t)) \<and>
            name (heap (load_packages f pkgs t) p) = k) \<and>
         (inj_on (\<lambda>p. name (heap (load_packages f pkgs t) p))
              (set (packages (load_packages f pkgs t))) \<longrightarrow>
            (\<forall>p \<in> set (packages (load_packages f pkgs t)).
               packages_map (load_packages f pkgs t)
                 (name (heap (load_packages f pkgs t) p)) = Some p) \<and>
            ran (packages_map (load_packages f pkgs t)) =
              set (packages (load_packages f pkgs t)) \<and>
            bij_betw (\<lambda>p. name (heap (load_packages f pkgs t) p))
              (set (packages (load_packages f pkgs t)))
              (dom (packages_map (load_packages f pkgs t))))"
proof -
  let ?t = "load_packages f pkgs t"
  let ?nm = "\<lambda>p. name (heap ?t p)"
  let ?D = "packages ?t"
  have pm: "packages_map ?t = dict_by_name (heap ?t) Map.empty ?D"
    using assms by (rule packages_map_load)
  have dom: "dom (packages_map ?t) = ?nm ` set ?D"
    by (subst pm) (simp add: dom_dict_by_name)
  have entry: "p \<in> set ?D \<and> ?nm p = k" if "packages_map ?t k = Some p" for k p
  proof -
    from that have "dict_by_name (heap ?t) Map.empty ?D k = Some p"
      by (simp only: pm [symmetric])
    then have "Map.empty k = Some p \<or> (p \<in> set ?D \<and> name (heap ?t p) = k)"
      by (rule dict_by_name_Some)
    then show ?thesis by simp
  qed
  then have entries: "\<forall>k p. packages_map ?t k = Some p \<longrightarrow> p \<in> set ?D \<and> ?nm p = k"
    by blast
  have uniq: "inj_on ?nm (set ?D) \<longrightarrow>
      (\<forall>p \<in> set ?D. packages_map ?t (?nm p) = Some p) \<and> ran (packages_map ?t) = set ?D \<and>
      bij_betw ?nm (set ?D) (dom (packages_map ?t))"
  proof
    assume inj: "inj_on ?nm (set ?D)"
    have look: "packages_map ?t (?nm p) = Some p" if "p \<in> set ?D" for p
      by (subst pm) (rule dict_by_name_inj [OF inj that])
    have "ran (packages_map ?t) \<subseteq> set ?D"
    proof
      fix p assume "p \<in> ran (packages_map ?t)"
      then obtain k where "packages_map ?t k = Some p" by (auto simp: ran_def)
      then show "p \<in> set ?D" using entry by blast
    qed
    moreover have "set ?D \<subseteq> ran (packages_map ?t)"
    proof
      fix p assume "p \<in> set ?D"
      then have "packages_map ?t (?nm p) = Some p" by (rule look)
      then show "p \<in> ran (packages_map ?t)" by (rule ranI)
    qed
    ultimately have ran: "ran (packages_map ?t) = set ?D" by (rule equalityI)
    have bij: "bij_betw ?nm (set ?D) (dom (packages_map ?t))"
      unfolding bij_betw_def using inj dom by simp
    from look ran bij
    show "(\<forall>p \<in> set ?D. packages_map ?t (?nm p) = Some p) \<and> ran (packages_map ?t) = set ?D \<and>
      bij_betw ?nm (set ?D) (dom (packages_map ?t))"
      by (intro conjI ballI)
  qed
  show ?thesis by (intro conjI) (rule dom, rule entries, rule uniq)
qed

theorem packages_map_reflects_packages_witness:
  "installs (Some [0, 1, 2]) example_table \<and>
   inj_on (\<lambda>p. name (heap (load_packages False (Some [0, 1, 2]) example_table) p))
     (set (packages (load_packages False (Some [0, 1, 2]) example_table))) \<and>
   packages (load_packages False (Some [0, 1, 2]) example_table) = [0, 1, 2] \<and>
   packages_map (load_packages False (Some [0, 1, 2]) example_table) ''six'' = Some 0 \<and>
   packages_map (load_packages False (Some [0, 1, 2]) example_table) ''numpy'' = Some 1 \<and>
   packages_map (load_packages False (Some [0, 1, 2]) example_table) ''pip'' = Some 2 \<and>
   dom (packages_map (load_packages False (Some [0, 1, 2]) example_table)) =
     {''six'', ''numpy'', ''pip''} \<and>
   ran (packages_map (load_packages False (Some [0, 1, 2]) example_table)) = {0, 1, 2}"
proof -
  let ?t = "load_packages False (Some [0, 1, 2]) example_table"
  have i: "installs (Some [0, 1, 2]) example_table"
    by (simp add: installs_def truthy_def)
  have p: "packages ?t = [0, 1, 2]"
    using packages_load [OF i, of False] by (simp add: all_packages_load)
  have n: "name (heap ?t 0) = ''six''" "name (heap ?t 1) = ''numpy''"
    "name (heap ?t 2) = ''pip''"
    by (simp_all add: table_defs)
  have inj: "inj_on (\<lambda>p. name (heap ?t p)) (set (packages ?t))"
    by (simp add: p n del: One_nat_def)
  note all = packages_map_reflects_packages [OF i, of False]
  from all have d: "dom (packages_map ?t) = (\<lambda>p. name (heap ?t p)) ` set (packages ?t)"
    by (rule conjunct1)
  from all [THEN conjunct2, THEN conjunct2, THEN mp, OF inj]
  have look: "\<forall>p \<in> set (packages ?t). packages_map ?t (name (heap ?t p)) = Some p"
    and r: "ran (packages_map ?t) = set (packages ?t)"
    by (rule conjunct1, rule conjunct2 [THEN conjunct1])
  have m: "packages_map ?t ''six'' = Some 0" "packages_map ?t ''numpy'' = Some 1"
    "packages_map ?t ''pip'' = Some 2"
    using look n by (simp_all add: p del: One_nat_def)
  have d': "dom (packages_map ?t) = {''six'', ''numpy'', ''pip''}"
    using d n by (simp add: p del: One_nat_def)
  have r': "ran (packages_map ?t) = {0, 1, 2}"
    using r by (simp add: p del: One_nat_def)
  show ?thesis by (intro conjI) (rule i inj p m d' r')+
qed

text \<open>
  C7. On a table of \<open>n > 0\<close> rows, \<^verbatim>\<open>next_row\<close> moves from row \<open>n - 1\<close> to row 0
  and from any earlier row \<open>r\<close> to \<open>r + 1\<close>; \<^verbatim>\<open>previous_row\<close> moves from row 0 to
  row \<open>n - 1\<close> and from any later row \<open>r\<close> to \<open>r - 1\<close>.
\<close>

theorem row_navigation_wraps:
  assumes "0 < rowCount t" and "- 1 \<le> current_row t" and "current_row t < rowCount t"
  shows "(current_row t = rowCount t - 1 \<longrightarrow> current_row (next_row t) = 0) \<and>
         (current_row t < rowCount t - 1 \<longrightarrow> current_row (next_row t) = current_row t + 1) \<and>
         (current_row t = 0 \<longrightarrow> current_row (previous_row t) = rowCount t - 1) \<and>
         (0 < current_row t \<longrightarrow> current_row (previous_row t) = current_row t - 1)"
  using assms
  by (auto simp: next_row_def previous_row_def selectRow_def Let_def)

theorem row_navigation_wraps_witness:
  "rowCount (load_packages False (Some [0, 1, 2]) example_table) = 3 \<and>
   current_row (next_row (selectRow 2 (load_packages False (Some [0, 1, 2]) example_table))) = 0 \<and>
   current_row (next_row (selectRow 0 (load_packages False (Some [0, 1, 2]) example_table))) = 1 \<and>
   current_row (previous_row (selectRow 0 (load_packages False (Some [0, 1, 2]) example_table))) = 2 \<and>
   current_row (previous_row (selectRow 2 (load_packages False (Some [0, 1, 2]) example_table))) = 1"
proof -
  have i: "installs (Some [0, 1, 2]) example_table"
    by (simp add: installs_def truthy_def)
  have p: "packages (load_packages False (Some [0, 1, 2]) example_table) = [0, 1, 2]"
    using packages_load [OF i, of False] by (simp add: all_packages_load)
  have rc: "rowCount (load_packages False (Some [0, 1, 2]) example_table) = 3"
    by (simp add: rowCount_def p del: One_nat_def)
  have s: "rowCount (selectRow r (load_packages False (Some [0, 1, 2]) example_table)) = 3 \<and>
      current_row (selectRow r (load_packages False (Some [0, 1, 2]) example_table)) = r"
    if "r = 0 \<or> r = 2" for r
    using that rc p by (auto simp: selectRow_def rowCount_def)
  from row_navigation_wraps [of "selectRow 2 (load_packages False (Some [0, 1, 2]) example_table)"]
    row_navigation_wraps [of "selectRow 0 (load_packages False (Some [0, 1, 2]) example_table)"]
    s [of 0] s [of 2] rc
  show ?thesis by simp
qed

text \<open>
  C8. \<^verbatim>\<open>data\<close> returns the empty value, and no error, for every index whose row is
  outside \<open>[0, rowCount)\<close>, whatever the column and the role; and for a row inside with a
  column other than 0, 1 and 2 under the display role.
\<close>

theorem data_out_of_range:
  "(\<not> (0 \<le> mi_row ix \<and> mi_row ix < rowCount t) \<longrightarrow> data t ix rl = Inr Empty) \<and>
   (0 \<le> mi_row ix \<and> mi_row ix < rowCount t \<and> mi_column ix \<notin> {NAME, DESCRIPTION, VERSION} \<longrightarrow>
      data t ix DisplayRole = Inr Empty)"
  by (auto simp: data_def py_index_def rowCount_def Let_def)

theorem data_out_of_range_witness:
  "rowCount (load_packages False (Some [0, 1]) example_table) = 2 \<and>
   data (load_packages False (Some [0, 1]) example_table)
     \<lparr>mi_row = 2, mi_column = 0, mi_model = True\<rparr> DisplayRole = Inr Empty \<and>
   data (load_packages False (Some [0, 1]) example_table)
     \<lparr>mi_row = - 1, mi_column = - 1, mi_model = False\<rparr> FontRole = Inr Empty \<and>
   data (load_packages False (Some [0, 1]) example_table)
     \<lparr>mi_row = 1, mi_column = 3, mi_model = True\<rparr> DisplayRole = Inr Empty"
proof -
  have i: "installs (Some [0, 1]) example_table"
    by (simp add: installs_def truthy_def)
  have p: "packages (load_packages False (Some [0, 1]) example_table) = [0, 1]"
    using packages_load [OF i, of False] by (simp add: all_packages_load)
  have rc: "rowCount (load_packages False (Some [0, 1]) example_table) = 2"
    by (simp add: rowCount_def p del: One_nat_def)
  from data_out_of_range [of "\<lparr>mi_row = 2, mi_column = 0, mi_model = True\<rparr>"
        "load_packages False (Some [0, 1]) example_table" DisplayRole]
    data_out_of_range [of "\<lparr>mi_row = - 1, mi_column = - 1, mi_model = False\<rparr>"
        "load_packages False (Some [0, 1]) example_table" FontRole]
    data_out_of_range [of "\<lparr>mi_row = 1, mi_column = 3, mi_model = True\<rparr>"
        "load_packages False (Some [0, 1]) example_table" DisplayRole]
    rc
  show ?thesis by (simp add: NAME_def DESCRIPTION_def VERSION_def)
qed

text \<open>
  C9. A load that installs a list displays references to the very objects of
  \<open>all_packages\<close> (all of them, or the requested ones under the filter) and writes into
  each displayed object its position in the displayed list (the last one, should the
  list name the same object twice). The objects are updated in place and in their
  \<^verbatim>\<open>index\<close> field only, and an object that is not displayed is not touched: under
  the filter, every requested entry of \<open>all_packages\<close> is displayed and so carries its
  position in the filtered list, and every other entry keeps the index it had.
\<close>

theorem load_packages_indexes_in_place:
  assumes "installs pkgs t"
  shows "packages (load_packages f pkgs t) =
           (if f then filter (\<lambda>p. requested (heap t p)) (all_packages (load_packages f pkgs t))
            else all_packages (load_packages f pkgs t)) \<and>
         (\<forall>i. i < length (packages (load_packages f pkgs t)) \<and>
              (\<forall>j. i < j \<and> j < length (packages (load_packages f pkgs t)) \<longrightarrow>
                 packages (load_packages f pkgs t) ! j \<noteq> packages (load_packages f pkgs t) ! i) \<longrightarrow>
              index (heap (load_packages f pkgs t) (packages (load_packages f pkgs t) ! i)) =
                Some (int i)) \<and>
         (\<forall>p. heap (load_packages f pkgs t) p =
              (heap t p)\<lparr>index := index (heap (load_packages f pkgs t) p)\<rparr>) \<and>
         (\<forall>p. p \<notin> set (packages (load_packages f pkgs t)) \<longrightarrow>
              heap (load_packages f pkgs t) p = heap t p) \<and>
         (f \<longrightarrow> (\<forall>p \<in> set (all_packages (load_packages f pkgs t)).
                   if requested (heap t p) then p \<in> set (packages (load_packages f pkgs t))
                   else index (heap (load_packages f pkgs t) p) = index (heap t p)))"
proof -
  let ?t = "load_packages f pkgs t"
  let ?D = "packages ?t"
  let ?A = "all_packages ?t"
  have shown: "?D = (if f then filter (\<lambda>p. requested (heap t p)) ?A else ?A)"
    using assms by (rule packages_load)
  have h: "heap ?t = assign_indices (heap t) 0 ?D"
    using assms by (rule heap_load)
  have pos: "\<forall>i. i < length ?D \<and> (\<forall>j. i < j \<and> j < length ?D \<longrightarrow> ?D ! j \<noteq> ?D ! i) \<longrightarrow>
      index (heap ?t (?D ! i)) = Some (int i)"
  proof (intro allI impI)
    fix i
    assume a: "i < length ?D \<and> (\<forall>j. i < j \<and> j < length ?D \<longrightarrow> ?D ! j \<noteq> ?D ! i)"
    then have "index (assign_indices (heap t) 0 ?D (?D ! i)) = Some (int (0 + i))"
      by (intro assign_indices_last) simp_all
    then show "index (heap ?t (?D ! i)) = Some (int i)"
      by (simp add: h [symmetric])
  qed
  have frame: "\<forall>p. heap ?t p = (heap t p)\<lparr>index := index (heap ?t p)\<rparr>"
  proof
    fix p
    have "assign_indices (heap t) 0 ?D p =
        (heap t p)\<lparr>index := index (assign_indices (heap t) 0 ?D p)\<rparr>"
      by (rule assign_indices_frame)
    then show "heap ?t p = (heap t p)\<lparr>index := index (heap ?t p)\<rparr>"
      by (simp only: h [symmetric])
  qed
  have other: "\<forall>p. p \<notin> set ?D \<longrightarrow> heap ?t p = heap t p"
  proof (intro allI impI)
    fix p
    assume "p \<notin> set ?D"
    then have "assign_indices (heap t) 0 ?D p = heap t p"
      by (rule assign_indices_other)
    then show "heap ?t p = heap t p"
      by (simp only: h [symmetric])
  qed
  have filtered: "f \<longrightarrow> (\<forall>p \<in> set ?A.
      if requested (heap t p) then p \<in> set ?D else index (heap ?t p) = index (heap t p))"
  proof (intro impI ballI)
    fix p
    assume f and pA: "p \<in> set ?A"
    from \<open>f\<close> shown have D: "?D = filter (\<lambda>p. requested (heap t p)) ?A" by simp
    show "if requested (heap t p) then p \<in> set ?D else index (heap ?t p) = index (heap t p)"
    proof (cases "requested (heap t p)")
      case True
      have "p \<in> set ?D" by (subst D) (simp add: True pA)
      with True show ?thesis by simp
    next
      case False
      have "p \<notin> set ?D" by (subst D) (simp add: False)
      with other have "heap ?t p = heap t p" by blast
      with False show ?thesis by simp
    qed
  qed
  show ?thesis by (intro conjI) (rule shown, rule pos, rule frame, rule other, rule filtered)
qed

theorem load_packages_indexes_in_place_witness:
  "installs None (load_packages False (Some [1, 0, 2]) example_table) \<and>
   all_packages (load_packages True None (load_packages False (Some [1, 0, 2]) example_table)) =
     [1, 0, 2] \<and>
   map (\<lambda>p. index (heap (load_packages False (Some [1, 0, 2]) example_table) p)) [1, 0, 2] =
     [Some 0, Some 1, Some 2] \<and>
   packages (load_packages True None (load_packages False (Some [1, 0, 2]) example_table)) =
     [1, 2] \<and>
   map (\<lambda>p. index (heap (load_packages True None
                           (load_packages False (Some [1, 0, 2]) example_table)) p)) [1, 0, 2] =
     [Some 0, Some 1, Some 1]"
proof -
  let ?t1 = "load_packages False (Some [1, 0, 2]) example_table"
  let ?t2 = "load_packages True None ?t1"
  have a1: "all_packages ?t1 = [1, 0, 2]" by (simp add: all_packages_load)
  then have i: "installs None ?t1" by (simp add: installs_def)
  have a2: "all_packages ?t2 = [1, 0, 2]" by (simp add: all_packages_load a1)
  have h1: "map (\<lambda>p. heap ?t1 p) [1, 0, 2] =
      [(example_store 1)\<lparr>index := Some 0\<rparr>, (example_store 0)\<lparr>index := Some 1\<rparr>,
       (example_store 2)\<lparr>index := Some 2\<rparr>]"
    by (simp add: table_defs)
  then have x1: "map (\<lambda>p. index (heap ?t1 p)) [1, 0, 2] = [Some 0, Some 1, Some 2]"
    and rq: "requested (heap ?t1 1)" "\<not> requested (heap ?t1 0)" "requested (heap ?t1 2)"
    by (simp_all add: example_store_def backend_package_def)
  note all = load_packages_indexes_in_place [OF i, of True]
  from all [THEN conjunct1] have d: "packages ?t2 = [1, 2]"
    using rq by (simp add: a2 del: One_nat_def)
  from all [THEN conjunct2, THEN conjunct1]
  have pos: "\<And>i. i < length (packages ?t2) \<Longrightarrow>
      (\<forall>j. i < j \<and> j < length (packages ?t2) \<longrightarrow> packages ?t2 ! j \<noteq> packages ?t2 ! i) \<Longrightarrow>
      index (heap ?t2 (packages ?t2 ! i)) = Some (int i)"
    by blast
  have "index (heap ?t2 (packages ?t2 ! 0)) = Some (int 0)"
    by (rule pos) (auto simp: d less_Suc_eq simp del: One_nat_def)
  then have i1: "index (heap ?t2 1) = Some 0" by (simp add: d del: One_nat_def)
  have "index (heap ?t2 (packages ?t2 ! 1)) = Some (int 1)"
    by (rule pos) (simp_all add: d del: One_nat_def)
  then have i2: "index (heap ?t2 2) = Some 1" by (simp add: d del: One_nat_def)
  from all [THEN conjunct2, THEN conjunct2, THEN conjunct2, THEN conjunct1]
  have "0 \<notin> set (packages ?t2) \<longrightarrow> heap ?t2 0 = heap ?t1 0" by (rule spec)
  then have "heap ?t2 0 = heap ?t1 0" by (simp add: d del: One_nat_def)
  with x1 have i0: "index (heap ?t2 0) = Some 1" by simp
  have x2: "map (\<lambda>p. index (heap ?t2 p)) [1, 0, 2] = [Some 0, Some 1, Some 1]"
    using i0 i1 i2 by simp
  show ?thesis by (intro conjI) (rule i a2 x1 d x2)+
qed

text \<open>
  C10, as stated: without a list or with the empty list, and with no full list stored,
  \<^verbatim>\<open>load_packages\<close> changes nothing and signals no reset; an empty list never
  replaces the stored full list, so the table cannot be cleared through
  \<^verbatim>\<open>load_packages\<close>. The last part fails: with six alone stored and displayed (one
  row, not requested), \<^verbatim>\<open>load_packages(True, [])\<close> reuses the stored list, the filter
  leaves nothing, and the table is reset to no row.
\<close>

theorem load_packages_clears_table_counterexample:
  "all_packages (load_packages False (Some [0]) example_table) = [0] \<and>
   rowCount (load_packages False (Some [0]) example_table) = 1 \<and>
   packages (load_packages True (Some []) (load_packages False (Some [0]) example_table)) = [] \<and>
   rowCount (load_packages True (Some []) (load_packages False (Some [0]) example_table)) = 0 \<and>
   resets (load_packages True (Some []) (load_packages False (Some [0]) example_table)) =
     Suc (resets (load_packages False (Some [0]) example_table))"
  by (simp add: table_defs Let_def)

text \<open>
  C10, amended: when no full list is stored, \<^verbatim>\<open>load_packages\<close> without a list or
  with the empty list returns the state as it was, reset count included. The empty list
  always counts as no list: it never replaces the stored full list, and a stored full
  list never becomes empty again through \<^verbatim>\<open>load_packages\<close>. What is displayed after
  passing the empty list is the stored full list, or its requested part under the
  filter, which has no row when no stored package is requested.
\<close>

theorem load_packages_empty_keeps_state:
  "(all_packages t = [] \<longrightarrow>
      load_packages f None t = t \<and> load_packages f (Some []) t = t \<and>
      resets (load_packages f (Some []) t) = resets t) \<and>
   load_packages f (Some []) t = load_packages f None t \<and>
   all_packages (load_packages f (Some []) t) = all_packages t \<and>
   (all_packages t \<noteq> [] \<longrightarrow>
      all_packages (load_packages f pkgs t) \<noteq> [] \<and>
      packages (load_packages f (Some []) t) =
        (if f then filter (\<lambda>p. requested (heap t p)) (all_packages t) else all_packages t))"
proof -
  have same: "load_packages f (Some []) t = load_packages f None t"
    by (simp add: load_packages_def truthy_def)
  have noop: "all_packages t = [] \<longrightarrow>
      load_packages f None t = t \<and> load_packages f (Some []) t = t \<and>
      resets (load_packages f (Some []) t) = resets t"
    by (simp add: load_packages_nothing truthy_def)
  have kept: "all_packages (load_packages f (Some []) t) = all_packages t"
    by (simp add: all_packages_load)
  have stays: "all_packages t \<noteq> [] \<longrightarrow>
      all_packages (load_packages f pkgs t) \<noteq> [] \<and>
      packages (load_packages f (Some []) t) =
        (if f then filter (\<lambda>p. requested (heap t p)) (all_packages t) else all_packages t)"
  proof
    assume ne: "all_packages t \<noteq> []"
    have "all_packages (load_packages f pkgs t) \<noteq> []"
      using ne by (simp add: all_packages_load split: option.splits list.splits)
    moreover have "installs (Some []) t" using ne by (simp add: installs_def)
    then have "packages (load_packages f (Some []) t) =
        (if f then filter (\<lambda>p. requested (heap t p)) (all_packages t) else all_packages t)"
      by (simp add: packages_load all_packages_load)
    ultimately show "all_packages (load_packages f pkgs t) \<noteq> [] \<and>
      packages (load_packages f (Some []) t) =
        (if f then filter (\<lambda>p. requested (heap t p)) (all_packages t) else all_packages t)"
      by simp
  qed
  show ?thesis by (intro conjI) (rule noop, rule same, rule kept, rule stays)
qed

theorem load_packages_empty_keeps_state_witness:
  "all_packages example_table = [] \<and>
   load_packages True None example_table = example_table \<and>
   load_packages True (Some []) example_table = example_table \<and>
   all_packages (load_packages False (Some [0, 1]) example_table) = [0, 1] \<and>
   all_packages (load_packages True (Some []) (load_packages False (Some [0, 1]) example_table)) =
     [0, 1] \<and>
   packages (load_packages False (Some []) (load_packages False (Some [0, 1]) example_table)) =
     [0, 1]"
proof -
  let ?t1 = "load_packages False (Some [0, 1]) example_table"
  have e: "all_packages example_table = []"
    by (simp add: example_table_def new_table_def all_packages_load)
  have a1: "all_packages ?t1 = [0, 1]" by (simp add: all_packages_load)
  note fresh = load_packages_empty_keeps_state [of example_table True]
  from fresh e have n1: "load_packages True None example_table = example_table"
    and n2: "load_packages True (Some []) example_table = example_table"
    by simp_all
  from load_packages_empty_keeps_state [of ?t1 True, THEN conjunct2, THEN conjunct2, THEN conjunct1]
    a1
  have k: "all_packages (load_packages True (Some []) ?t1) = [0, 1]"
    by simp
  from a1 have "all_packages ?t1 \<noteq> []" by simp
  with load_packages_empty_keeps_state [of ?t1 False, THEN conjunct2, THEN conjunct2,
      THEN conjunct2]
  have "packages (load_packages False (Some []) ?t1) = all_packages ?t1"
    by simp
  with a1 have s: "packages (load_packages False (Some []) ?t1) = [0, 1]"
    by simp
  show ?thesis by (intro conjI) (rule e n1 n2 a1 k s)+
qed

end
